theory Spec2Isabelle
  imports Main
begin

section \<open>Python values and the operations the exporter applies to them\<close>

text \<open>
  The exporter (\<^verbatim>\<open>src/immich_exporter/exporter.py\<close>) reads JSON documents and copies
  their fields into metric dictionaries. A parsed JSON document is a Python value:
  \<^verbatim>\<open>None\<close>, a bool, an int, a str, a list or a dict with string keys. A dict is an
  association list read with \<open>map_of\<close>. Python floats are not modelled: the code adds
  only the per-user counters (integers in the upstream API) and copies every other
  number unchanged, so no definition below has to compute with a float.
\<close>

datatype pyval =
    PNone
  | PBool bool
  | PInt int
  | PStr string
  | PList "pyval list"
  | PDict "(string \<times> pyval) list"

text \<open>Every \<^verbatim>\<open>raise\<close> the modelled code can reach is a value of this type.\<close>

datatype error = KeyError | TypeError | IndexError | AttributeError | UnboundLocalError

definition bind_res :: "error + 'a \<Rightarrow> ('a \<Rightarrow> error + 'b) \<Rightarrow> error + 'b" where
  "bind_res r f = (case r of Inl e \<Rightarrow> Inl e | Inr v \<Rightarrow> f v)"

text \<open>\<^verbatim>\<open>d[key]\<close> with a string key: a dict looks the key up, any other JSON value raises
  \<^verbatim>\<open>TypeError\<close> (lists and strings want integer indices, the rest is not subscriptable).\<close>

definition subscript :: "pyval \<Rightarrow> string \<Rightarrow> error + pyval" where
  "subscript d key =
     (case d of
        PDict kvs \<Rightarrow> (case map_of kvs key of None \<Rightarrow> Inl KeyError | Some v \<Rightarrow> Inr v)
      | _ \<Rightarrow> Inl TypeError)"

text \<open>\<^verbatim>\<open>len(v)\<close>.\<close>

definition py_len :: "pyval \<Rightarrow> error + nat" where
  "py_len v =
     (case v of
        PList xs \<Rightarrow> Inr (length xs)
      | PDict kvs \<Rightarrow> Inr (length kvs)
      | PStr s \<Rightarrow> Inr (length s)
      | _ \<Rightarrow> Inl TypeError)"

text \<open>\<^verbatim>\<open>v[x]\<close> with \<open>x\<close> a non-negative int below \<^verbatim>\<open>len(v)\<close>: a dict with string
  keys has no integer key.\<close>

definition subscript_index :: "pyval \<Rightarrow> nat \<Rightarrow> error + pyval" where
  "subscript_index v x =
     (case v of
        PList xs \<Rightarrow> (if x < length xs then Inr (xs ! x) else Inl IndexError)
      | PStr s \<Rightarrow> (if x < length s then Inr (PStr [s ! x]) else Inl IndexError)
      | PDict kvs \<Rightarrow> Inl KeyError
      | _ \<Rightarrow> Inl TypeError)"

text \<open>\<^verbatim>\<open>growth_total += v\<close> where \<open>growth_total\<close> is an int: ints add, a bool counts as 0 or 1, every
  other JSON value raises \<^verbatim>\<open>TypeError\<close>.\<close>

definition py_iadd :: "int \<Rightarrow> pyval \<Rightarrow> error + int" where
  "py_iadd growth_total v =
     (case v of
        PInt i \<Rightarrow> Inr (growth_total + i)
      | PBool b \<Rightarrow> Inr (growth_total + (if b then 1 else 0))
      | _ \<Rightarrow> Inl TypeError)"

subsection \<open>\<^verbatim>\<open>str()\<close>\<close>

definition digit_char :: "nat \<Rightarrow> char" where
  "digit_char d = ''0123456789'' ! d"

fun digits :: "nat \<Rightarrow> string" where
  "digits n = (if n < 10 then [digit_char n] else digits (n div 10) @ [digit_char (n mod 10)])"

definition str_int :: "int \<Rightarrow> string" where
  "str_int i = (if i < 0 then ''-'' @ digits (nat (- i)) else digits (nat i))"

fun join :: "string \<Rightarrow> string list \<Rightarrow> string" where
  "join sep [] = []"
| "join sep [x] = x"
| "join sep (x # y # ys) = x @ sep @ join sep (y # ys)"

text \<open>\<^verbatim>\<open>repr\<close> of a value. A string inside a list or dict is shown between single
  quotes; Python's escaping of quotes, backslashes and control characters in such a nested
  string is not reproduced, and no theorem below depends on it.\<close>

primrec py_repr :: "pyval \<Rightarrow> string" where
  "py_repr PNone = ''None''"
| "py_repr (PBool b) = (if b then ''True'' else ''False'')"
| "py_repr (PInt i) = str_int i"
| "py_repr (PStr s) = [CHR 0x27] @ s @ [CHR 0x27]"
| "py_repr (PList xs) = ''['' @ join '', '' (map py_repr xs) @ '']''"
| "py_repr (PDict kvs) =
     ''{'' @ join '', '' (map (\<lambda>kv. [CHR 0x27] @ fst kv @ [CHR 0x27] @ '': '' @ snd kv)
                              (map (map_prod id py_repr) kvs)) @ ''}''"

definition py_str :: "pyval \<Rightarrow> string" where
  "py_str v = (case v of PStr s \<Rightarrow> s | _ \<Rightarrow> py_repr v)"

subsection \<open>\<^verbatim>\<open>str.split()\<close>\<close>

text \<open>The ASCII characters for which \<^verbatim>\<open>str.isspace\<close> holds.\<close>

definition is_space :: "char \<Rightarrow> bool" where
  "is_space c = (c \<in> set [CHR 0x20, CHR 0x09, CHR 0x0A, CHR 0x0B, CHR 0x0C, CHR 0x0D,
                             CHR 0x1C, CHR 0x1D, CHR 0x1E, CHR 0x1F])"

text \<open>\<^verbatim>\<open>s.split()\<close>: the maximal runs of non-space characters, in order. The first
  argument is the token being read.\<close>

fun split_ws :: "string \<Rightarrow> string \<Rightarrow> string list" where
  "split_ws cur [] = (if cur = [] then [] else [cur])"
| "split_ws cur (c # cs) =
     (if is_space c then (if cur = [] then split_ws [] cs else cur # split_ws [] cs)
      else split_ws (cur @ [c]) cs)"

definition py_split :: "string \<Rightarrow> string list" where
  "py_split s = split_ws [] s"

text \<open>\<^verbatim>\<open>v.split()[0]\<close>: only a str has \<^verbatim>\<open>split\<close>, and an empty token list has no
  element 0.\<close>

definition split_first :: "pyval \<Rightarrow> error + string" where
  "split_first v =
     (case v of
        PStr s \<Rightarrow> (case py_split s of [] \<Rightarrow> Inl IndexError | t # _ \<Rightarrow> Inr t)
      | _ \<Rightarrow> Inl AttributeError)"

text \<open>The first whitespace-delimited token, said directly: skip the leading spaces, then
  take characters up to the next space.\<close>

definition first_token :: "string \<Rightarrow> string" where
  "first_token s = takeWhile (\<lambda>c. \<not> is_space c) (dropWhile is_space s)"

section \<open>Metric dictionaries and the exposition families built from them\<close>

text \<open>
  Each transformer returns a list of dicts with the keys \<^verbatim>\<open>name\<close>, \<^verbatim>\<open>value\<close>,
  \<^verbatim>\<open>help\<close> and, for some, \<^verbatim>\<open>labels\<close>. No dict of the source has a \<^verbatim>\<open>type\<close> key
  (the three occurrences are commented out); the field is kept because \<^verbatim>\<open>collect\<close>
  reads it. An absent key is \<open>None\<close>.
\<close>

record metric =
  metric_name :: string
  metric_value :: pyval
  metric_help :: string
  metric_labels :: "(string \<times> string) list option"
  metric_type :: "string option"

datatype kind = Gauge | Counter

text \<open>What \<^verbatim>\<open>collect\<close> yields for one dict: a \<^verbatim>\<open>GaugeMetricFamily\<close> or
  \<^verbatim>\<open>CounterMetricFamily\<close> with one sample.\<close>

record family =
  family_kind :: kind
  family_name :: string
  family_documentation :: string
  family_labelnames :: "string list"
  family_labelvalues :: "string list"
  family_value :: pyval

definition to_family :: "metric \<Rightarrow> family" where
  "to_family m =
     (let labels = (case metric_labels m of None \<Rightarrow> [] | Some l \<Rightarrow> l);
          help_text = metric_help m;
          mtype = (case metric_type m of None \<Rightarrow> ''gauge'' | Some t \<Rightarrow> t)
      in \<lparr> family_kind = (if mtype = ''counter'' then Counter else Gauge),
           family_name = metric_name m,
           family_documentation = help_text,
           family_labelnames = map fst labels,
           family_labelvalues = map snd labels,
           family_value = metric_value m \<rparr>)"

text \<open>The outcome of \<^verbatim>\<open>self.request(endpoint).json()\<close>: the call raises
  \<^verbatim>\<open>requests.exceptions.RequestException\<close> or returns the parsed document.\<close>

datatype http_result = RequestException | Json (the_json: pyval)

text \<open>A local variable assigned only inside a \<^verbatim>\<open>try\<close> block is unbound after the
  \<^verbatim>\<open>except\<close> branch ran; reading it raises \<^verbatim>\<open>UnboundLocalError\<close>.\<close>

definition read_local :: "'a option \<Rightarrow> error + 'a" where
  "read_local v = (case v of None \<Rightarrow> Inl UnboundLocalError | Some x \<Rightarrow> Inr x)"

record config =
  metrics_prefix :: string

section \<open>The transformers\<close>

subsection \<open>\<^verbatim>\<open>get_immich_server_version_number\<close>\<close>

datatype event = Request string | LogError string | LogInfo string | Sleep int

text \<open>The \<^verbatim>\<open>while True\<close> loop around the \<^verbatim>\<open>/version\<close> request. \<open>req k\<close> is the
  outcome of the \<open>k\<close>-th request of the cycle; the loop has no exit but a request that
  does not raise, so it is a partial function: \<open>None\<close> is a loop that never ends. The
  third argument collects what the loop did.\<close>

partial_function (option) version_loop ::
  "(nat \<Rightarrow> http_result) \<Rightarrow> nat \<Rightarrow> event list \<Rightarrow> (pyval \<times> event list) option" where
  "version_loop req k tr =
     (if req k = RequestException
      then version_loop req (Suc k)
             (tr @ [Request ''/version'', LogError ''Couldn't get server version''])
      else Some (the_json (req k), tr @ [Request ''/version'']))"

definition version_metrics :: "config \<Rightarrow> pyval \<Rightarrow> error + metric list" where
  "version_metrics cfg response =
     bind_res (subscript response ''major'') (\<lambda>major.
     bind_res (subscript response ''minor'') (\<lambda>minor.
     bind_res (subscript response ''patch'') (\<lambda>patch.
       let server_version_number = py_str major @ ''.'' @ py_str minor @ ''.'' @ py_str patch
       in Inr [\<lparr> metric_name = metrics_prefix cfg @ ''_server_info_version_number'',
                  metric_value = PBool (server_version_number \<noteq> []),
                  metric_help = ''server version number'',
                  metric_labels = Some [(''version'', server_version_number)],
                  metric_type = None \<rparr>])))"

definition get_immich_server_version_number ::
  "config \<Rightarrow> (nat \<Rightarrow> http_result) \<Rightarrow> (error + metric list) option" where
  "get_immich_server_version_number cfg req =
     (case version_loop req 0 [] of
        None \<Rightarrow> None
      | Some (response, tr) \<Rightarrow> Some (version_metrics cfg response))"

subsection \<open>\<^verbatim>\<open>get_immich_storage\<close>\<close>

text \<open>The \<^verbatim>\<open>except\<close> branch logs and falls through to the \<^verbatim>\<open>return\<close>, which
  reads \<^verbatim>\<open>response_storage\<close>. The four dicts are built in order, so the fields are read
  in the order written.\<close>

definition get_immich_storage :: "config \<Rightarrow> http_result \<Rightarrow> error + metric list" where
  "get_immich_storage cfg resp =
     (let response_storage = (case resp of RequestException \<Rightarrow> None | Json d \<Rightarrow> Some d) in
      bind_res (read_local response_storage) (\<lambda>r.
      bind_res (subscript r ''diskAvailableRaw'') (\<lambda>diskAvailableRaw.
      bind_res (subscript r ''diskSizeRaw'') (\<lambda>diskSizeRaw.
      bind_res (subscript r ''diskUseRaw'') (\<lambda>diskUseRaw.
      bind_res (subscript r ''diskUsagePercentage'') (\<lambda>diskUsagePercentage.
        Inr [\<lparr> metric_name = metrics_prefix cfg @ ''_server_info_diskAvailable'',
                 metric_value = diskAvailableRaw,
                 metric_help = ''Available space on disk'',
                 metric_labels = None, metric_type = None \<rparr>,
             \<lparr> metric_name = metrics_prefix cfg @ ''_server_info_totalDiskSize'',
                 metric_value = diskSizeRaw,
                 metric_help = ''total disk size'',
                 metric_labels = None, metric_type = None \<rparr>,
             \<lparr> metric_name = metrics_prefix cfg @ ''_server_info_diskUse'',
                 metric_value = diskUseRaw,
                 metric_help = ''disk space in use'',
                 metric_labels = None, metric_type = None \<rparr>,
             \<lparr> metric_name = metrics_prefix cfg @ ''_server_info_diskUsagePercentage'',
                 metric_value = diskUsagePercentage,
                 metric_help = ''disk usage in percent'',
                 metric_labels = None, metric_type = None \<rparr>]))))))"

subsection \<open>\<^verbatim>\<open>get_immich_users_stat\<close>\<close>

text \<open>The loop state: the three running totals and the list \<^verbatim>\<open>metrics\<close>.\<close>

record users_state =
  photos_growth_total :: int
  videos_growth_total :: int
  usage_growth_total :: int
  metrics :: "metric list"

text \<open>One pass of the \<^verbatim>\<open>for\<close> body for the element \<open>user\<close> = \<^verbatim>\<open>user_data[x]\<close>:
  the three additions, then the three dicts, each reading its value, its label and its
  help text in that order.\<close>

definition by_users :: "config \<Rightarrow> string \<Rightarrow> pyval \<Rightarrow> pyval \<Rightarrow> error + metric" where
  "by_users cfg suffix user field_value =
     bind_res (subscript user ''userName'') (\<lambda>userName.
     bind_res (split_first userName) (\<lambda>firstName.
     bind_res (subscript user ''userName'') (\<lambda>userName'.
     bind_res (split_first userName') (\<lambda>helpName.
       Inr \<lparr> metric_name = metrics_prefix cfg @ suffix,
               metric_value = field_value,
               metric_help = ''Number of photos by user '' @ helpName @ '' '',
               metric_labels = Some [(''firstName'', firstName)],
               metric_type = None \<rparr>))))"

definition users_body :: "config \<Rightarrow> pyval \<Rightarrow> users_state \<Rightarrow> error + users_state" where
  "users_body cfg user st =
     bind_res (subscript user ''photos'') (\<lambda>photos.
     bind_res (py_iadd (photos_growth_total st) photos) (\<lambda>photos_total.
     bind_res (subscript user ''videos'') (\<lambda>videos.
     bind_res (py_iadd (videos_growth_total st) videos) (\<lambda>videos_total.
     bind_res (subscript user ''usage'') (\<lambda>usage.
     bind_res (py_iadd (usage_growth_total st) usage) (\<lambda>usage_total.
     bind_res (by_users cfg ''_server_stats_photos_by_users'' user photos) (\<lambda>m1.
     bind_res (by_users cfg ''_server_stats_videos_by_users'' user videos) (\<lambda>m2.
     bind_res (by_users cfg ''_server_stats_usage_by_users'' user usage) (\<lambda>m3.
       Inr \<lparr> photos_growth_total = photos_total,
               videos_growth_total = videos_total,
               usage_growth_total = usage_total,
               metrics = metrics st @ [m1, m2, m3] \<rparr>)))))))))"

text \<open>\<^verbatim>\<open>for x in range(0, user_count)\<close>, over the list of indices.\<close>

fun users_loop :: "config \<Rightarrow> pyval \<Rightarrow> nat list \<Rightarrow> users_state \<Rightarrow> error + users_state" where
  "users_loop cfg user_data [] st = Inr st"
| "users_loop cfg user_data (x # xs) st =
     bind_res (subscript_index user_data x) (\<lambda>user.
     bind_res (users_body cfg user st) (\<lambda>st'.
       users_loop cfg user_data xs st'))"

definition get_immich_users_stat :: "config \<Rightarrow> http_result \<Rightarrow> error + metric list" where
  "get_immich_users_stat cfg resp =
     (let response_user_stats = (case resp of RequestException \<Rightarrow> None | Json d \<Rightarrow> Some d) in
      bind_res (read_local response_user_stats) (\<lambda>r.
      bind_res (subscript r ''usageByUser'') (\<lambda>user_data.
      bind_res (subscript r ''usageByUser'') (\<lambda>user_data'.
      bind_res (py_len user_data') (\<lambda>user_count.
      bind_res (users_loop cfg user_data [0..<user_count]
                  \<lparr> photos_growth_total = 0, videos_growth_total = 0,
                    usage_growth_total = 0, metrics = [] \<rparr>) (\<lambda>st.
        Inr (metrics st @
             [\<lparr> metric_name = metrics_prefix cfg @ ''_server_stats_user_count'',
                 metric_value = PInt (int user_count),
                 metric_help = ''number of users on the immich server'',
                 metric_labels = None, metric_type = None \<rparr>,
              \<lparr> metric_name = metrics_prefix cfg @ ''_server_stats_photos_growth'',
                 metric_value = PInt (photos_growth_total st),
                 metric_help = ''photos counter that is added or removed'',
                 metric_labels = None, metric_type = None \<rparr>,
              \<lparr> metric_name = metrics_prefix cfg @ ''_server_stats_videos_growth'',
                 metric_value = PInt (videos_growth_total st),
                 metric_help = ''videos counter that is added or removed'',
                 metric_labels = None, metric_type = None \<rparr>,
              \<lparr> metric_name = metrics_prefix cfg @ ''_server_stats_usage_growth'',
                 metric_value = PInt (usage_growth_total st),
                 metric_help = ''videos counter that is added or removed'',
                 metric_labels = None, metric_type = None \<rparr>])))))))"

subsection \<open>\<^verbatim>\<open>get_system_stats\<close>\<close>

text \<open>The host figures come from \<^verbatim>\<open>os.getloadavg()\<close>, \<^verbatim>\<open>psutil.virtual_memory()\<close>
  and \<^verbatim>\<open>psutil.cpu_percent\<close>; they are taken as given and copied.\<close>

record system_stats =
  load_avg :: "pyval \<times> pyval \<times> pyval"
  virtual_mem :: "pyval \<times> pyval \<times> pyval \<times> pyval \<times> pyval"
  cpu :: pyval

definition labelled :: "config \<Rightarrow> string \<Rightarrow> pyval \<Rightarrow> string \<Rightarrow> string \<Rightarrow> string \<Rightarrow> metric" where
  "labelled cfg suffix v help_text label_key label_value =
     \<lparr> metric_name = metrics_prefix cfg @ suffix, metric_value = v, metric_help = help_text,
       metric_labels = Some [(label_key, label_value)], metric_type = None \<rparr>"

definition get_system_stats :: "config \<Rightarrow> system_stats \<Rightarrow> metric list" where
  "get_system_stats cfg host =
     (case load_avg host of (load0, load1, load2) \<Rightarrow>
      case virtual_mem host of (mem0, mem1, mem2, mem3, mem4) \<Rightarrow>
        [labelled cfg ''_system_info_loadAverage'' load0 ''CPU Load average 1m'' ''period'' ''1m'',
         labelled cfg ''_system_info_loadAverage'' load1 ''CPU Load average 5m'' ''period'' ''5m'',
         labelled cfg ''_system_info_loadAverage'' load2 ''CPU Load average 15m'' ''period'' ''15m'',
         labelled cfg ''_system_info_memory'' mem0 ''Virtual Memory - Total'' ''type'' ''Total'',
         labelled cfg ''_system_info_memory'' mem1 ''Virtual Memory - Available'' ''type'' ''Available'',
         labelled cfg ''_system_info_memory'' mem2 ''Virtual Memory - Percent'' ''type'' ''Percent'',
         labelled cfg ''_system_info_memory'' mem3 ''Virtual Memory - Used'' ''type'' ''Used'',
         labelled cfg ''_system_info_memory'' mem4 ''Virtual Memory - Free'' ''type'' ''Free'',
         \<lparr> metric_name = metrics_prefix cfg @ ''_system_info_cpu_usage'',
           metric_value = cpu host,
           metric_help = ''Representing the current system-wide CPU utilization as a percentage'',
           metric_labels = None, metric_type = None \<rparr>])"

section \<open>The collector\<close>

text \<open>What one cycle meets outside the process: the outcome of each \<^verbatim>\<open>/version\<close>
  request in turn, of the \<^verbatim>\<open>/storage\<close> and \<^verbatim>\<open>/statistics\<close> requests, and the host
  figures.\<close>

record env =
  version_requests :: "nat \<Rightarrow> http_result"
  storage_request :: http_result
  statistics_request :: http_result
  host :: system_stats

text \<open>\<^verbatim>\<open>get_immich_metrics\<close> calls the four transformers in order and has no
  \<^verbatim>\<open>try\<close>: the first exception leaves the function, and the list built so far is lost.
  \<open>None\<close> is a cycle that never returns.\<close>

definition get_immich_metrics :: "config \<Rightarrow> env \<Rightarrow> (error + metric list) option" where
  "get_immich_metrics cfg e =
     (case get_immich_server_version_number cfg (version_requests e) of
        None \<Rightarrow> None
      | Some version \<Rightarrow>
          Some (bind_res version (\<lambda>m1.
                bind_res (get_immich_storage cfg (storage_request e)) (\<lambda>m2.
                bind_res (get_immich_users_stat cfg (statistics_request e)) (\<lambda>m3.
                  Inr (m1 @ m2 @ m3 @ get_system_stats cfg (host e)))))))"

text \<open>\<^verbatim>\<open>collect\<close> is a generator; its first step runs \<^verbatim>\<open>get_immich_metrics\<close> to the
  end, then one family is yielded per dict.\<close>

definition collect :: "config \<Rightarrow> env \<Rightarrow> (error + family list) option" where
  "collect cfg e =
     (case get_immich_metrics cfg e of
        None \<Rightarrow> None
      | Some (Inl err) \<Rightarrow> Some (Inl err)
      | Some (Inr ms) \<Rightarrow> Some (Inr (map to_family ms)))"

section \<open>\<^verbatim>\<open>SignalHandler\<close>\<close>

record SignalHandler =
  shutdown_count :: int


definition is_shutting_down :: "SignalHandler \<Rightarrow> bool" where
  "is_shutting_down self = (shutdown_count self > 0)"




section \<open>\<^verbatim>\<open>check_server_up\<close>\<close>

text \<open>The \<^verbatim>\<open>if\<close>/\<^verbatim>\<open>elif\<close> chain of the \<^verbatim>\<open>except\<close> branch, with the constants of
  the source.\<close>

definition backoff :: "int \<Rightarrow> event list" where
  "backoff counter =
     (if 0 \<le> counter \<and> counter \<le> 60 then [Sleep 1]
      else if 11 \<le> counter \<and> counter \<le> 300 then [Sleep 15]
      else if counter > 300 then [Sleep 60]
      else [])"

text \<open>The retry loop. \<open>ping_raises n\<close> says whether the request made when \<^verbatim>\<open>counter\<close>
  is \<open>n\<close> raises \<^verbatim>\<open>RequestException\<close>. The loop may run forever.\<close>

partial_function (option) check_server_up_loop ::
  "(int \<Rightarrow> bool) \<Rightarrow> int \<Rightarrow> event list \<Rightarrow> (int \<times> event list) option" where
  "check_server_up_loop ping_raises counter tr =
     (if ping_raises (counter + 1)
      then check_server_up_loop ping_raises (counter + 1)
             (tr @ [Request ''/api/server/ping'', LogError ''CONNECTION ERROR''] @
              backoff (counter + 1))
      else Some (counter + 1, tr @ [Request ''/api/server/ping'']))"

definition check_server_up :: "(int \<Rightarrow> bool) \<Rightarrow> event list option" where
  "check_server_up ping_raises =
     (case check_server_up_loop ping_raises 0 [] of
        None \<Rightarrow> None
      | Some (counter, tr) \<Rightarrow>
          Some (tr @ [LogInfo ''Found immich up and running'',
                      LogInfo ''Attempting to connect to immich'',
                      Sleep 1,
                      LogInfo ''Exporter 1.2.1'']))"

text \<open>The durations slept in a trace, in order.\<close>

fun sleeps :: "event list \<Rightarrow> int list" where
  "sleeps [] = []"
| "sleeps (Sleep d # tr) = d # sleeps tr"
| "sleeps (_ # tr) = sleeps tr"

text \<open>The requests counted in a trace.\<close>

fun requests_made :: "event list \<Rightarrow> nat" where
  "requests_made [] = 0"
| "requests_made (Request endpoint # tr) = Suc (requests_made tr)"
| "requests_made (_ # tr) = requests_made tr"

text \<open>The backoff table as the specification words it: attempts 1 to 60 sleep 1 second,
  61 to 300 sleep 15 seconds, above 300 sleep 60 seconds.\<close>

definition tiered_backoff_schedule :: "int \<Rightarrow> int option" where
  "tiered_backoff_schedule n =
     (if 1 \<le> n \<and> n \<le> 60 then Some 1
      else if 61 \<le> n \<and> n \<le> 300 then Some 15
      else if n > 300 then Some 60
      else None)"

section \<open>Valid statistics responses\<close>

text \<open>
  A valid entry of \<^verbatim>\<open>usageByUser\<close> is a dict whose \<^verbatim>\<open>photos\<close>, \<^verbatim>\<open>videos\<close> and
  \<^verbatim>\<open>usage\<close> are ints and whose \<^verbatim>\<open>userName\<close> is a string with at least one character
  that is not a space, so that it has a first token. A valid statistics response is a
  dict whose \<^verbatim>\<open>usageByUser\<close> is a list \<open>us\<close> of valid entries.
\<close>

definition int_field :: "pyval \<Rightarrow> string \<Rightarrow> int option" where
  "int_field u k = (case subscript u k of Inr (PInt i) \<Rightarrow> Some i | _ \<Rightarrow> None)"

definition name_field :: "pyval \<Rightarrow> string option" where
  "name_field u = (case subscript u ''userName'' of Inr (PStr s) \<Rightarrow> Some s | _ \<Rightarrow> None)"

definition valid_user :: "pyval \<Rightarrow> bool" where
  "valid_user u =
     (int_field u ''photos'' \<noteq> None \<and> int_field u ''videos'' \<noteq> None \<and>
      int_field u ''usage'' \<noteq> None \<and>
      (case name_field u of None \<Rightarrow> False | Some s \<Rightarrow> \<exists>c \<in> set s. \<not> is_space c))"

definition valid_statistics :: "pyval \<Rightarrow> pyval list \<Rightarrow> bool" where
  "valid_statistics doc us =
     (subscript doc ''usageByUser'' = Inr (PList us) \<and> list_all valid_user us)"

definition the_int :: "pyval \<Rightarrow> string \<Rightarrow> int" where
  "the_int u k = (case int_field u k of Some i \<Rightarrow> i | None \<Rightarrow> 0)"

definition the_name :: "pyval \<Rightarrow> string" where
  "the_name u = (case name_field u of Some s \<Rightarrow> s | None \<Rightarrow> [])"

text \<open>The three dicts expected for one valid entry, in order, with the first token of
  the user's name as label and in the help text.\<close>

definition user_metric :: "config \<Rightarrow> string \<Rightarrow> pyval \<Rightarrow> string \<Rightarrow> metric" where
  "user_metric cfg suffix u k =
     \<lparr> metric_name = metrics_prefix cfg @ suffix,
       metric_value = PInt (the_int u k),
       metric_help = ''Number of photos by user '' @ first_token (the_name u) @ '' '',
       metric_labels = Some [(''firstName'', first_token (the_name u))],
       metric_type = None \<rparr>"

definition user_metrics :: "config \<Rightarrow> pyval \<Rightarrow> metric list" where
  "user_metrics cfg u =
     [user_metric cfg ''_server_stats_photos_by_users'' u ''photos'',
      user_metric cfg ''_server_stats_videos_by_users'' u ''videos'',
      user_metric cfg ''_server_stats_usage_by_users'' u ''usage'']"

text \<open>The four aggregate dicts for given count and totals.\<close>

definition aggregate_metrics :: "config \<Rightarrow> nat \<Rightarrow> int \<Rightarrow> int \<Rightarrow> int \<Rightarrow> metric list" where
  "aggregate_metrics cfg n p v g =
     [\<lparr> metric_name = metrics_prefix cfg @ ''_server_stats_user_count'',
        metric_value = PInt (int n),
        metric_help = ''number of users on the immich server'',
        metric_labels = None, metric_type = None \<rparr>,
      \<lparr> metric_name = metrics_prefix cfg @ ''_server_stats_photos_growth'',
        metric_value = PInt p,
        metric_help = ''photos counter that is added or removed'',
        metric_labels = None, metric_type = None \<rparr>,
      \<lparr> metric_name = metrics_prefix cfg @ ''_server_stats_videos_growth'',
        metric_value = PInt v,
        metric_help = ''videos counter that is added or removed'',
        metric_labels = None, metric_type = None \<rparr>,
      \<lparr> metric_name = metrics_prefix cfg @ ''_server_stats_usage_growth'',
        metric_value = PInt g,
        metric_help = ''videos counter that is added or removed'',
        metric_labels = None, metric_type = None \<rparr>]"


section \<open>Responses with absent fields\<close>

text \<open>Some key of \<open>ks\<close> is absent from the dict \<open>d\<close>.\<close>

definition lacks_field :: "pyval \<Rightarrow> string list \<Rightarrow> bool" where
  "lacks_field d ks = (\<exists>k \<in> set ks. subscript d k = Inl KeyError)"

text \<open>The request answered with a dict from which some key of \<open>ks\<close> is absent.\<close>

definition absent_in :: "http_result \<Rightarrow> string list \<Rightarrow> bool" where
  "absent_in r ks = (case r of RequestException \<Rightarrow> False | Json d \<Rightarrow> lacks_field d ks)"

text \<open>Some entry of \<^verbatim>\<open>usageByUser\<close> is a dict without one of its four keys.\<close>

definition user_lacks_field :: "http_result \<Rightarrow> bool" where
  "user_lacks_field r =
     (case r of
        RequestException \<Rightarrow> False
      | Json d \<Rightarrow>
          (case subscript d ''usageByUser'' of
             Inr (PList us) \<Rightarrow>
               (\<exists>u \<in> set us. lacks_field u [''userName'', ''photos'', ''videos'', ''usage''])
           | _ \<Rightarrow> False))"

section \<open>Label keys per metric name\<close>

text \<open>The label keys that go with each name suffix used by the transformers; every other
  suffix is unlabeled.\<close>

definition expected_labelnames :: "string \<Rightarrow> string list" where
  "expected_labelnames suffix =
     (if suffix = ''_server_info_version_number'' then [''version'']
      else if suffix \<in> set [''_server_stats_photos_by_users'', ''_server_stats_videos_by_users'',
                             ''_server_stats_usage_by_users''] then [''firstName'']
      else if suffix = ''_system_info_loadAverage'' then [''period'']
      else if suffix = ''_system_info_memory'' then [''type'']
      else [])"

text \<open>A dict whose name starts with the prefix and whose label keys are those of its
  suffix.\<close>

definition well_labelled :: "config \<Rightarrow> metric \<Rightarrow> bool" where
  "well_labelled cfg m =
     (take (length (metrics_prefix cfg)) (metric_name m) = metrics_prefix cfg \<and>
      family_labelnames (to_family m) =
        expected_labelnames (drop (length (metrics_prefix cfg)) (metric_name m)))"

section \<open>Inputs of the specification's scenarios\<close>

definition cfg_immich :: config where
  "cfg_immich = \<lparr> metrics_prefix = ''immich'' \<rparr>"

definition version_1_2_3 :: pyval where
  "version_1_2_3 = PDict [(''major'', PInt 1), (''minor'', PInt 2), (''patch'', PInt 3)]"

definition storage_100_500 :: pyval where
  "storage_100_500 =
     PDict [(''diskAvailableRaw'', PInt 100), (''diskSizeRaw'', PInt 500),
            (''diskUseRaw'', PInt 400), (''diskUsagePercentage'', PInt 80)]"

definition ann :: pyval where
  "ann = PDict [(''userName'', PStr ''Ann Lee''), (''photos'', PInt 3),
                (''videos'', PInt 1), (''usage'', PInt 100)]"

definition bo :: pyval where
  "bo = PDict [(''userName'', PStr ''Bo Ng''), (''photos'', PInt 2),
               (''videos'', PInt 0), (''usage'', PInt 50)]"

definition ann_and_bo :: pyval where
  "ann_and_bo = PDict [(''usageByUser'', PList [ann, bo])]"

definition idle_host :: system_stats where
  "idle_host = \<lparr> load_avg = (PInt 0, PInt 0, PInt 0),
                  virtual_mem = (PInt 8, PInt 4, PInt 50, PInt 4, PInt 4),
                  cpu = PInt 0 \<rparr>"

text \<open>Cycles: every endpoint answers; \<^verbatim>\<open>/storage\<close> raises; \<^verbatim>\<open>/version\<close> always
  raises; the statistics document is empty; the second user has no \<^verbatim>\<open>photos\<close>.\<close>

definition all_up :: env where
  "all_up = \<lparr> version_requests = (\<lambda>k. Json version_1_2_3),
               storage_request = Json storage_100_500,
               statistics_request = Json ann_and_bo,
               host = idle_host \<rparr>"

definition storage_down :: env where
  "storage_down = \<lparr> version_requests = (\<lambda>k. Json version_1_2_3),
                     storage_request = RequestException,
                     statistics_request = Json ann_and_bo,
                     host = idle_host \<rparr>"

definition version_down :: env where
  "version_down = \<lparr> version_requests = (\<lambda>k. RequestException),
                     storage_request = Json storage_100_500,
                     statistics_request = Json ann_and_bo,
                     host = idle_host \<rparr>"

definition no_usage :: env where
  "no_usage = \<lparr> version_requests = (\<lambda>k. Json version_1_2_3),
                 storage_request = Json storage_100_500,
                 statistics_request = Json (PDict []),
                 host = idle_host \<rparr>"

definition no_photos :: env where
  "no_photos = \<lparr> version_requests = (\<lambda>k. Json version_1_2_3),
                  storage_request = Json storage_100_500,
                  statistics_request = Json (PDict [(''usageByUser'', PList
                     [ann, PDict [(''userName'', PStr ''Bo Ng''), (''videos'', PInt 0),
                                  (''usage'', PInt 50)]])]),
                  host = idle_host \<rparr>"

text \<open>Two families of the load average, as \<^verbatim>\<open>collect\<close> yields them on the idle host.\<close>

definition load_1m :: family where
  "load_1m = to_family (labelled cfg_immich ''_system_info_loadAverage'' (PInt 0)
                         ''CPU Load average 1m'' ''period'' ''1m'')"

definition load_15m :: family where
  "load_15m = to_family (labelled cfg_immich ''_system_info_loadAverage'' (PInt 0)
                          ''CPU Load average 15m'' ''period'' ''15m'')"

section \<open>Shutdown escalation\<close>






section \<open>Reachability backoff\<close>

lemma backoff_tier:
  "1 \<le> n \<Longrightarrow> map Some (sleeps (backoff n)) = [tiered_backoff_schedule n]"
  by (simp add: backoff_def tiered_backoff_schedule_def)

lemma backoff_boundaries:
  "backoff 1 = [Sleep 1]" "backoff 60 = [Sleep 1]" "backoff 61 = [Sleep 15]"
  "backoff 300 = [Sleep 15]" "backoff 301 = [Sleep 60]"
  by (simp_all add: backoff_def)

lemma sleeps_append: "sleeps (xs @ ys) = sleeps xs @ sleeps ys"
  by (induction xs rule: sleeps.induct) simp_all

lemma check_server_up_loop_run:
  "(\<forall>i<m. ping_raises (counter + 1 + int i)) \<Longrightarrow> \<not> ping_raises (counter + 1 + int m) \<Longrightarrow>
   \<exists>tr'. check_server_up_loop ping_raises counter tr = Some (counter + 1 + int m, tr @ tr') \<and>
         sleeps tr' = concat (map (\<lambda>i. sleeps (backoff (counter + 1 + int i))) [0..<m])"
proof (induction m arbitrary: counter tr)
  case 0
  then show ?case by (subst check_server_up_loop.simps) simp
next
  case (Suc m)
  have first: "ping_raises (counter + 1)" using Suc.prems(1) by (metis add.right_neutral of_nat_0 zero_less_Suc)
  have rest: "\<forall>i<m. ping_raises ((counter + 1) + 1 + int i)"
  proof (intro allI impI)
    fix i assume "i < m"
    then have "Suc i < Suc m" by simp
    then have "ping_raises (counter + 1 + int (Suc i))" using Suc.prems(1) by blast
    moreover have "counter + 1 + int (Suc i) = (counter + 1) + 1 + int i" by simp
    ultimately show "ping_raises ((counter + 1) + 1 + int i)" by (simp only:)
  qed
  have eq: "counter + 1 + int (Suc m) = (counter + 1) + 1 + int m" by simp
  have stop: "\<not> ping_raises ((counter + 1) + 1 + int m)"
    using Suc.prems(2) unfolding eq .
  from Suc.IH [OF rest stop, of "tr @ [Request ''/api/server/ping'', LogError ''CONNECTION ERROR''] @ backoff (counter + 1)"]
  obtain tr' where run: "check_server_up_loop ping_raises (counter + 1)
       (tr @ [Request ''/api/server/ping'', LogError ''CONNECTION ERROR''] @ backoff (counter + 1)) =
       Some (counter + 1 + 1 + int m, (tr @ [Request ''/api/server/ping'', LogError ''CONNECTION ERROR''] @ backoff (counter + 1)) @ tr')"
    and sl: "sleeps tr' = concat (map (\<lambda>i. sleeps (backoff (counter + 1 + 1 + int i))) [0..<m])"
    by blast
  have unfold: "check_server_up_loop ping_raises counter tr =
      check_server_up_loop ping_raises (counter + 1)
       (tr @ [Request ''/api/server/ping'', LogError ''CONNECTION ERROR''] @ backoff (counter + 1))"
    by (subst check_server_up_loop.simps) (simp add: first)
  have idx: "[0..<Suc m] = 0 # map Suc [0..<m]"
    by (simp add: upt_conv_Cons map_Suc_upt del: upt_Suc)
  let ?tr' = "[Request ''/api/server/ping'', LogError ''CONNECTION ERROR''] @ backoff (counter + 1) @ tr'"
  have "check_server_up_loop ping_raises counter tr = Some (counter + 1 + int (Suc m), tr @ ?tr')"
    unfolding eq using unfold run by simp
  moreover have "sleeps ?tr' = concat (map (\<lambda>i. sleeps (backoff (counter + 1 + int i))) [0..<Suc m])"
    unfolding idx using sl by (simp add: sleeps_append comp_def add_ac del: upt_Suc)
  ultimately show ?case by blast
qed

text \<open>
  Claim C3. When the first \<open>m\<close> requests raise and request \<open>m + 1\<close> does not, the retry
  loop returns with \<^verbatim>\<open>counter\<close> = \<open>m + 1\<close>, and the sleeps it performed are, in order,
  those of the specification's table for the attempt counts 1 to \<open>m\<close>: 1 second up to
  attempt 60, 15 seconds from 61 to 300, 60 seconds above 300.
\<close>

theorem backoff_schedule:
  assumes "\<forall>n. 1 \<le> n \<and> n \<le> int m \<longrightarrow> ping_raises n" and "\<not> ping_raises (int m + 1)"
  shows "\<exists>tr. check_server_up_loop ping_raises 0 [] = Some (int m + 1, tr) \<and>
              map Some (sleeps tr) = map (\<lambda>n. tiered_backoff_schedule (int n)) [1..<Suc m]"
proof -
  have a: "\<forall>i<m. ping_raises (0 + 1 + int i)" using assms(1) by simp
  have b: "\<not> ping_raises (0 + 1 + int m)" using assms(2) by (simp add: add.commute)
  from check_server_up_loop_run [OF a b, of "[]"]
  obtain tr where run: "check_server_up_loop ping_raises 0 [] = Some (0 + 1 + int m, [] @ tr)"
    and sl: "sleeps tr = concat (map (\<lambda>i. sleeps (backoff (0 + 1 + int i))) [0..<m])" by blast
  have each: "map Some (sleeps (backoff (1 + int i))) = [tiered_backoff_schedule (int (Suc i))]" for i
    using backoff_tier [of "1 + int i"] by (simp add: add.commute)
  have "map Some (sleeps tr) = concat (map (\<lambda>i. map Some (sleeps (backoff (1 + int i)))) [0..<m])"
    using sl by (simp add: map_concat comp_def)
  also have "\<dots> = map (\<lambda>i. tiered_backoff_schedule (int (Suc i))) [0..<m]"
    by (simp add: each del: of_nat_Suc)
  also have "\<dots> = map (\<lambda>n. tiered_backoff_schedule (int n)) [1..<Suc m]"
    by (simp only: map_Suc_upt [symmetric] map_map comp_def One_nat_def)
  finally show ?thesis using run by (simp add: add.commute)
qed

theorem backoff_schedule_witness:
  "(1::int) \<le> 2 \<and> (2::int) \<le> 2 \<and> \<not> (3::int) \<le> 2 \<and>
   (\<exists>tr. check_server_up_loop (\<lambda>n. n \<le> 2) 0 [] = Some (3, tr) \<and>
         map Some (sleeps tr) = [Some 1, Some 1])"
  using backoff_schedule [of 2 "\<lambda>n. n \<le> 2"]
  by (simp add: tiered_backoff_schedule_def upt_conv_Cons)

section \<open>The version and storage transformers\<close>

lemma version_loop_first: "req 0 \<noteq> RequestException \<Longrightarrow>
   version_loop req 0 [] = Some (the_json (req 0), [Request ''/version''])"
  by (subst version_loop.simps) simp





text \<open>
  Claim C8. For a storage response that has the four fields, the transformer emits exactly
  four Gauge records without labels, named \<^verbatim>\<open><prefix>_server_info_diskAvailable\<close>,
  \<^verbatim>\<open>_totalDiskSize\<close>, \<^verbatim>\<open>_diskUse\<close> and \<^verbatim>\<open>_diskUsagePercentage\<close>, carrying the
  response's \<^verbatim>\<open>diskAvailableRaw\<close>, \<^verbatim>\<open>diskSizeRaw\<close>, \<^verbatim>\<open>diskUseRaw\<close> and
  \<^verbatim>\<open>diskUsagePercentage\<close> unchanged.
\<close>

theorem storage_records:
  assumes "subscript r ''diskAvailableRaw'' = Inr diskAvailableRaw"
    and "subscript r ''diskSizeRaw'' = Inr diskSizeRaw"
    and "subscript r ''diskUseRaw'' = Inr diskUseRaw"
    and "subscript r ''diskUsagePercentage'' = Inr diskUsagePercentage"
  shows "\<exists>ms. get_immich_storage cfg (Json r) = Inr ms \<and>
     map (\<lambda>f. (family_kind f, family_name f, family_labelnames f, family_labelvalues f, family_value f))
         (map to_family ms) =
       [(Gauge, metrics_prefix cfg @ ''_server_info_diskAvailable'', [], [], diskAvailableRaw),
        (Gauge, metrics_prefix cfg @ ''_server_info_totalDiskSize'', [], [], diskSizeRaw),
        (Gauge, metrics_prefix cfg @ ''_server_info_diskUse'', [], [], diskUseRaw),
        (Gauge, metrics_prefix cfg @ ''_server_info_diskUsagePercentage'', [], [], diskUsagePercentage)]"
  using assms by (simp add: get_immich_storage_def read_local_def bind_res_def to_family_def)

theorem storage_records_witness:
  "\<exists>ms. get_immich_storage cfg_immich (Json storage_100_500) = Inr ms \<and>
     map (\<lambda>f. (family_kind f, family_name f, family_labelnames f, family_labelvalues f, family_value f))
         (map to_family ms) =
       [(Gauge, ''immich_server_info_diskAvailable'', [], [], PInt 100),
        (Gauge, ''immich_server_info_totalDiskSize'', [], [], PInt 500),
        (Gauge, ''immich_server_info_diskUse'', [], [], PInt 400),
        (Gauge, ''immich_server_info_diskUsagePercentage'', [], [], PInt 80)]"
  using storage_records [of storage_100_500 "PInt 100" "PInt 500" "PInt 400" "PInt 80" cfg_immich]
  by (simp add: storage_100_500_def subscript_def cfg_immich_def)

section \<open>Transport failures inside a cycle\<close>

lemma storage_transport_error: "get_immich_storage cfg RequestException = Inl UnboundLocalError"
  by (simp add: get_immich_storage_def read_local_def bind_res_def)

lemma users_transport_error: "get_immich_users_stat cfg RequestException = Inl UnboundLocalError"
  by (simp add: get_immich_users_stat_def read_local_def bind_res_def)

lemma version_1_2_3_ok: "\<exists>ms. get_immich_server_version_number cfg (\<lambda>k. Json version_1_2_3) = Some (Inr ms)"
  by (simp add: get_immich_server_version_number_def version_loop_first version_metrics_def
      version_1_2_3_def subscript_def bind_res_def)

text \<open>
  Claim C1, evaluated. With \<^verbatim>\<open>/version\<close> and \<^verbatim>\<open>/statistics\<close> answering and
  \<^verbatim>\<open>/storage\<close> raising a transport error, \<^verbatim>\<open>get_immich_storage\<close> logs the error and
  then reads the unbound \<^verbatim>\<open>response_storage\<close>: the cycle ends in
  \<^verbatim>\<open>UnboundLocalError\<close> and yields no record at all.
\<close>

theorem storage_failure_aborts_cycle:
  "collect cfg_immich storage_down = Some (Inl UnboundLocalError)"
proof -
  obtain ms where "get_immich_server_version_number cfg_immich (\<lambda>k. Json version_1_2_3) = Some (Inr ms)"
    using version_1_2_3_ok by blast
  then show ?thesis
    by (simp add: collect_def get_immich_metrics_def storage_down_def storage_transport_error bind_res_def)
qed

section \<open>The retry loop of the version transformer\<close>

lemma version_loop_never:
  assumes "version_loop req k tr = Some y"
  shows "\<exists>j\<ge>k. req j \<noteq> RequestException"
proof (rule version_loop.raw_induct
    [where P = "\<lambda>req k tr y. \<exists>j\<ge>k. req j \<noteq> RequestException", OF _ assms])
  fix f :: "(nat \<Rightarrow> http_result) \<Rightarrow> nat \<Rightarrow> event list \<Rightarrow> (pyval \<times> event list) option"
    and req k tr y
  assume IH: "\<And>req k tr y. f req k tr = Some y \<Longrightarrow> \<exists>j\<ge>k. req j \<noteq> RequestException"
    and body: "(if req k = RequestException
      then f req (Suc k) (tr @ [Request ''/version'', LogError ''Couldn't get server version''])
      else Some (the_json (req k), tr @ [Request ''/version''])) = Some y"
  show "\<exists>j\<ge>k. req j \<noteq> RequestException"
  proof (cases "req k = RequestException")
    case True
    with body have "f req (Suc k)
        (tr @ [Request ''/version'', LogError ''Couldn't get server version'']) = Some y"
      by simp
    from IH [OF this] obtain j where "Suc k \<le> j" "req j \<noteq> RequestException" by blast
    then show ?thesis by (metis Suc_leD)
  next
    case False
    then show ?thesis by blast
  qed
qed

lemma version_loop_all_fail:
  "(\<forall>j. req j = RequestException) \<Longrightarrow> version_loop req k tr = None"
  using version_loop_never [of req k tr] by (cases "version_loop req k tr") auto

lemma requests_made_append: "requests_made (xs @ ys) = requests_made xs + requests_made ys"
  by (induction xs rule: requests_made.induct) simp_all

lemma version_loop_run:
  "(\<forall>j<m. req (k + j) = RequestException) \<Longrightarrow> req (k + m) = Json doc \<Longrightarrow>
   \<exists>tr'. version_loop req k tr = Some (doc, tr @ tr') \<and>
         requests_made tr' = Suc m \<and> sleeps tr' = []"
proof (induction m arbitrary: k tr)
  case 0
  then show ?case by (subst version_loop.simps) simp
next
  case (Suc m)
  have first: "req k = RequestException" using Suc.prems(1) by (metis add.right_neutral zero_less_Suc)
  have rest: "\<forall>j<m. req (Suc k + j) = RequestException"
  proof (intro allI impI)
    fix j assume "j < m"
    then have "req (k + Suc j) = RequestException" using Suc.prems(1) by (metis Suc_less_eq)
    then show "req (Suc k + j) = RequestException" by simp
  qed
  have stop: "req (Suc k + m) = Json doc" using Suc.prems(2) by simp
  let ?step = "[Request ''/version'', LogError ''Couldn't get server version'']"
  from Suc.IH [OF rest stop, of "tr @ ?step"]
  obtain tr' where run: "version_loop req (Suc k) (tr @ ?step) = Some (doc, (tr @ ?step) @ tr')"
    and n: "requests_made tr' = Suc m" and sl: "sleeps tr' = []" by blast
  have "version_loop req k tr = version_loop req (Suc k) (tr @ ?step)"
    by (subst version_loop.simps) (simp add: first)
  then have "version_loop req k tr = Some (doc, tr @ (?step @ tr'))" using run by simp
  moreover have "requests_made (?step @ tr') = Suc (Suc m)" using n by simp
  moreover have "sleeps (?step @ tr') = []" using sl by simp
  ultimately show ?case by blast
qed

lemma collect_None_iff:
  "collect cfg e = None \<longleftrightarrow> version_loop (version_requests e) 0 [] = None"
  by (auto simp: collect_def get_immich_metrics_def get_immich_server_version_number_def
           split: option.splits sum.splits prod.splits)

text \<open>
  Claim C10. The \<^verbatim>\<open>/version\<close> loop has no bound and no sleep: if the first \<open>m\<close>
  requests raise a transport error and request \<open>m\<close> (counted from 0) answers, the loop
  returns that answer after exactly \<open>m + 1\<close> requests and without sleeping, for every
  \<open>m\<close>. If every \<^verbatim>\<open>/version\<close> request raises, the loop never ends, and
  \<^verbatim>\<open>collect\<close> never returns, whatever the other endpoints answer.
\<close>

theorem version_retried_forever:
  "((\<forall>j<m. version_requests e j = RequestException) \<and> version_requests e m = Json doc \<longrightarrow>
      (\<exists>tr. version_loop (version_requests e) 0 [] = Some (doc, tr) \<and>
            requests_made tr = Suc m \<and> sleeps tr = [])) \<and>
   ((\<forall>j. version_requests e j = RequestException) \<longrightarrow> collect cfg e = None)"
proof (intro conjI impI)
  assume a: "(\<forall>j<m. version_requests e j = RequestException) \<and> version_requests e m = Json doc"
  then have "\<forall>j<m. version_requests e (0 + j) = RequestException"
    and "version_requests e (0 + m) = Json doc" by simp_all
  from version_loop_run [OF this, of "[]"]
  show "\<exists>tr. version_loop (version_requests e) 0 [] = Some (doc, tr) \<and>
            requests_made tr = Suc m \<and> sleeps tr = []" by simp
next
  assume "\<forall>j. version_requests e j = RequestException"
  then show "collect cfg e = None"
    by (simp add: collect_None_iff version_loop_all_fail)
qed

theorem version_retried_forever_witness:
  "collect cfg_immich version_down = None \<and>
   (\<exists>tr. version_loop (\<lambda>k. if k < 2 then RequestException else Json version_1_2_3) 0 [] =
            Some (version_1_2_3, tr) \<and> requests_made tr = 3 \<and> sleeps tr = [])"
  using version_retried_forever [of 0 version_down PNone cfg_immich]
        version_retried_forever [of 2 "version_down \<lparr> version_requests :=
            (\<lambda>k. if k < 2 then RequestException else Json version_1_2_3) \<rparr>" version_1_2_3 cfg_immich]
  by (simp add: version_down_def)

section \<open>The user statistics transformer\<close>

lemma split_ws_head:
  "cur \<noteq> [] \<Longrightarrow> \<exists>rest. split_ws cur s = (cur @ takeWhile (\<lambda>c. \<not> is_space c) s) # rest"
proof (induction s arbitrary: cur)
  case Nil
  then show ?case by simp
next
  case (Cons c cs)
  show ?case
  proof (cases "is_space c")
    case True
    then show ?thesis using Cons.prems by simp
  next
    case False
    have "cur @ [c] \<noteq> []" by simp
    from Cons.IH [OF this] show ?thesis using False by simp
  qed
qed

lemma map_nth_all: "map (\<lambda>x. f (us ! x)) [0..<length us] = map f us"
  by (rule nth_equalityI) simp_all

lemma split_ws_first_token:
  "\<exists>c \<in> set s. \<not> is_space c \<Longrightarrow> \<exists>rest. split_ws [] s = first_token s # rest"
proof (induction s)
  case Nil
  then show ?case by simp
next
  case (Cons c cs)
  show ?case
  proof (cases "is_space c")
    case True
    with Cons.prems have "\<exists>c \<in> set cs. \<not> is_space c" by auto
    from Cons.IH [OF this] show ?thesis using True by (simp add: first_token_def)
  next
    case False
    from split_ws_head [of "[c]" cs] obtain rest
      where "split_ws [c] cs = ([c] @ takeWhile (\<lambda>c. \<not> is_space c) cs) # rest" by auto
    then show ?thesis using False by (simp add: first_token_def)
  qed
qed

lemma split_first_token:
  "\<exists>c \<in> set s. \<not> is_space c \<Longrightarrow> split_first (PStr s) = Inr (first_token s)"
  using split_ws_first_token [of s] by (auto simp: split_first_def py_split_def)

lemma int_field_Some:
  "int_field u k \<noteq> None \<Longrightarrow> subscript u k = Inr (PInt (the_int u k))"
  by (cases "subscript u k") (auto simp: int_field_def the_int_def split: pyval.splits)

lemma name_field_Some:
  "name_field u = Some s \<Longrightarrow> subscript u ''userName'' = Inr (PStr s)"
  by (cases "subscript u ''userName''") (auto simp: name_field_def split: pyval.splits)

lemma valid_user_fields:
  assumes "valid_user u"
  shows "subscript u ''photos'' = Inr (PInt (the_int u ''photos''))"
    and "subscript u ''videos'' = Inr (PInt (the_int u ''videos''))"
    and "subscript u ''usage'' = Inr (PInt (the_int u ''usage''))"
    and "subscript u ''userName'' = Inr (PStr (the_name u))"
    and "\<exists>c \<in> set (the_name u). \<not> is_space c"
proof -
  from assms have p: "int_field u ''photos'' \<noteq> None" and v: "int_field u ''videos'' \<noteq> None"
    and g: "int_field u ''usage'' \<noteq> None" by (simp_all add: valid_user_def)
  from assms obtain s where s: "name_field u = Some s" and c: "\<exists>c \<in> set s. \<not> is_space c"
    by (cases "name_field u") (simp_all add: valid_user_def)
  have n: "the_name u = s" by (simp add: the_name_def s)
  show "subscript u ''photos'' = Inr (PInt (the_int u ''photos''))" by (rule int_field_Some [OF p])
  show "subscript u ''videos'' = Inr (PInt (the_int u ''videos''))" by (rule int_field_Some [OF v])
  show "subscript u ''usage'' = Inr (PInt (the_int u ''usage''))" by (rule int_field_Some [OF g])
  show "subscript u ''userName'' = Inr (PStr (the_name u))" unfolding n by (rule name_field_Some [OF s])
  show "\<exists>c \<in> set (the_name u). \<not> is_space c" unfolding n by (rule c)
qed

lemma by_users_valid:
  assumes "valid_user u"
  shows "by_users cfg suffix u (PInt (the_int u k)) = Inr (user_metric cfg suffix u k)"
  using valid_user_fields(4,5) [OF assms]
  by (simp add: by_users_def bind_res_def split_first_token user_metric_def)

lemma users_body_valid:
  assumes "valid_user u"
  shows "users_body cfg u st =
     Inr \<lparr> photos_growth_total = photos_growth_total st + the_int u ''photos'',
           videos_growth_total = videos_growth_total st + the_int u ''videos'',
           usage_growth_total = usage_growth_total st + the_int u ''usage'',
           metrics = metrics st @ user_metrics cfg u \<rparr>"
  using valid_user_fields(1-3) [OF assms]
  by (simp add: users_body_def bind_res_def py_iadd_def by_users_valid [OF assms] user_metrics_def)

lemma users_loop_valid:
  assumes "\<forall>x \<in> set xs. x < length us \<and> valid_user (us ! x)"
  shows "users_loop cfg (PList us) xs st =
     Inr \<lparr> photos_growth_total = photos_growth_total st + (\<Sum>x\<leftarrow>xs. the_int (us ! x) ''photos''),
           videos_growth_total = videos_growth_total st + (\<Sum>x\<leftarrow>xs. the_int (us ! x) ''videos''),
           usage_growth_total = usage_growth_total st + (\<Sum>x\<leftarrow>xs. the_int (us ! x) ''usage''),
           metrics = metrics st @ concat (map (\<lambda>x. user_metrics cfg (us ! x)) xs) \<rparr>"
  using assms
proof (induction xs arbitrary: st)
  case Nil
  then show ?case by simp
next
  case (Cons x xs)
  then have x: "x < length us" "valid_user (us ! x)"
    and rest: "\<forall>x \<in> set xs. x < length us \<and> valid_user (us ! x)" by simp_all
  show ?case
    by (simp add: bind_res_def subscript_index_def x users_body_valid Cons.IH [OF rest] add.assoc)
qed

lemma users_stat_valid:
  assumes "valid_statistics doc us"
  shows "get_immich_users_stat cfg (Json doc) =
     Inr (concat (map (user_metrics cfg) us) @
          aggregate_metrics cfg (length us)
            (\<Sum>u\<leftarrow>us. the_int u ''photos'') (\<Sum>u\<leftarrow>us. the_int u ''videos'')
            (\<Sum>u\<leftarrow>us. the_int u ''usage''))"
proof -
  from assms have doc: "subscript doc ''usageByUser'' = Inr (PList us)"
    and all: "\<forall>x \<in> set [0..<length us]. x < length us \<and> valid_user (us ! x)"
    by (simp_all add: valid_statistics_def list_all_iff)
  show ?thesis
    by (simp add: get_immich_users_stat_def read_local_def bind_res_def doc py_len_def
        users_loop_valid [OF all] map_nth_all aggregate_metrics_def
        map_nth_all [of "\<lambda>u. the_int u ''photos''" us]
        map_nth_all [of "\<lambda>u. the_int u ''videos''" us]
        map_nth_all [of "\<lambda>u. the_int u ''usage''" us])
qed



lemma ann_and_bo_valid: "valid_statistics ann_and_bo [ann, bo]"
  by (simp add: valid_statistics_def ann_and_bo_def ann_def bo_def subscript_def valid_user_def
      int_field_def name_field_def is_space_def)





section \<open>Responses with a missing field\<close>

lemma bind_res_Inr: "bind_res r f = Inr y \<Longrightarrow> \<exists>v. r = Inr v \<and> f v = Inr y"
  by (cases r) (simp_all add: bind_res_def)

lemma version_missing_field:
  assumes "lacks_field version [''major'', ''minor'', ''patch'']"
  shows "version_metrics cfg version = Inl KeyError"
proof -
  from assms obtain kvs where d: "version = PDict kvs"
    by (cases version) (auto simp: lacks_field_def subscript_def)
  from assms d have "map_of kvs ''major'' = None \<or> map_of kvs ''minor'' = None \<or> map_of kvs ''patch'' = None"
    by (auto simp: lacks_field_def subscript_def split: option.splits)
  then show ?thesis
    by (auto simp: version_metrics_def bind_res_def subscript_def d split: option.splits)
qed

lemma storage_missing_field:
  assumes "absent_in r [''diskAvailableRaw'', ''diskSizeRaw'', ''diskUseRaw'', ''diskUsagePercentage'']"
  shows "get_immich_storage cfg r = Inl KeyError"
proof -
  from assms obtain doc where r: "r = Json doc"
    and l: "lacks_field doc [''diskAvailableRaw'', ''diskSizeRaw'', ''diskUseRaw'', ''diskUsagePercentage'']"
    by (cases r) (simp_all add: absent_in_def)
  from l obtain kvs where d: "doc = PDict kvs"
    by (cases doc) (auto simp: lacks_field_def subscript_def)
  from l d have "map_of kvs ''diskAvailableRaw'' = None \<or> map_of kvs ''diskSizeRaw'' = None \<or>
      map_of kvs ''diskUseRaw'' = None \<or> map_of kvs ''diskUsagePercentage'' = None"
    by (auto simp: lacks_field_def subscript_def split: option.splits)
  then show ?thesis
    by (auto simp: get_immich_storage_def read_local_def bind_res_def subscript_def r d
             split: option.splits)
qed

lemma statistics_missing_field:
  assumes "absent_in r [''usageByUser'']"
  shows "get_immich_users_stat cfg r = Inl KeyError"
proof -
  from assms obtain doc where r: "r = Json doc" and l: "subscript doc ''usageByUser'' = Inl KeyError"
    by (cases r) (simp_all add: absent_in_def lacks_field_def)
  show ?thesis
    by (simp add: get_immich_users_stat_def read_local_def bind_res_def r l)
qed

lemma by_users_Inr:
  "by_users cfg suffix u v = Inr m \<Longrightarrow> \<exists>n. subscript u ''userName'' = Inr n"
  unfolding by_users_def by (blast dest: bind_res_Inr)

lemma users_body_Inr:
  assumes "users_body cfg u st = Inr st'"
  shows "\<not> lacks_field u [''userName'', ''photos'', ''videos'', ''usage'']"
proof -
  from assms obtain photos where p: "subscript u ''photos'' = Inr photos"
    and 1: "bind_res (py_iadd (photos_growth_total st) photos) (\<lambda>photos_total.
     bind_res (subscript u ''videos'') (\<lambda>videos.
     bind_res (py_iadd (videos_growth_total st) videos) (\<lambda>videos_total.
     bind_res (subscript u ''usage'') (\<lambda>usage.
     bind_res (py_iadd (usage_growth_total st) usage) (\<lambda>usage_total.
     bind_res (by_users cfg ''_server_stats_photos_by_users'' u photos) (\<lambda>m1.
     bind_res (by_users cfg ''_server_stats_videos_by_users'' u videos) (\<lambda>m2.
     bind_res (by_users cfg ''_server_stats_usage_by_users'' u usage) (\<lambda>m3.
       Inr \<lparr> photos_growth_total = photos_total,
               videos_growth_total = videos_total,
               usage_growth_total = usage_total,
               metrics = metrics st @ [m1, m2, m3] \<rparr>)))))))) = Inr st'"
    unfolding users_body_def by (blast dest: bind_res_Inr)
  from 1 obtain pt videos where v: "subscript u ''videos'' = Inr videos"
    and 2: "bind_res (py_iadd (videos_growth_total st) videos) (\<lambda>videos_total.
     bind_res (subscript u ''usage'') (\<lambda>usage.
     bind_res (py_iadd (usage_growth_total st) usage) (\<lambda>usage_total.
     bind_res (by_users cfg ''_server_stats_photos_by_users'' u photos) (\<lambda>m1.
     bind_res (by_users cfg ''_server_stats_videos_by_users'' u videos) (\<lambda>m2.
     bind_res (by_users cfg ''_server_stats_usage_by_users'' u usage) (\<lambda>m3.
       Inr \<lparr> photos_growth_total = pt,
               videos_growth_total = videos_total,
               usage_growth_total = usage_total,
               metrics = metrics st @ [m1, m2, m3] \<rparr>)))))) = Inr st'"
    by (blast dest: bind_res_Inr)
  from 2 obtain vt usage where g: "subscript u ''usage'' = Inr usage"
    and 3: "bind_res (py_iadd (usage_growth_total st) usage) (\<lambda>usage_total.
     bind_res (by_users cfg ''_server_stats_photos_by_users'' u photos) (\<lambda>m1.
     bind_res (by_users cfg ''_server_stats_videos_by_users'' u videos) (\<lambda>m2.
     bind_res (by_users cfg ''_server_stats_usage_by_users'' u usage) (\<lambda>m3.
       Inr \<lparr> photos_growth_total = pt,
               videos_growth_total = vt,
               usage_growth_total = usage_total,
               metrics = metrics st @ [m1, m2, m3] \<rparr>)))) = Inr st'"
    by (blast dest: bind_res_Inr)
  from 3 obtain m1 where "by_users cfg ''_server_stats_photos_by_users'' u photos = Inr m1"
    by (blast dest: bind_res_Inr)
  then obtain n where n: "subscript u ''userName'' = Inr n" by (blast dest: by_users_Inr)
  show ?thesis by (simp add: lacks_field_def p v g n)
qed

lemma users_loop_Inr:
  "users_loop cfg (PList us) xs st = Inr st' \<Longrightarrow> x \<in> set xs \<Longrightarrow>
   x < length us \<and> \<not> lacks_field (us ! x) [''userName'', ''photos'', ''videos'', ''usage'']"
proof (induction xs arbitrary: st)
  case Nil
  then show ?case by simp
next
  case (Cons y ys)
  from Cons.prems(1) obtain user st2 where u: "subscript_index (PList us) y = Inr user"
    and s2: "users_body cfg user st = Inr st2"
    and rest: "users_loop cfg (PList us) ys st2 = Inr st'"
    by (auto dest!: bind_res_Inr)
  from u have y: "y < length us" "user = us ! y"
    by (auto simp: subscript_index_def split: if_splits)
  show ?case
  proof (cases "x = y")
    case True
    then show ?thesis using y users_body_Inr [OF s2] by simp
  next
    case False
    with Cons.prems(2) have "x \<in> set ys" by simp
    from Cons.IH [OF rest this] show ?thesis .
  qed
qed

lemma users_missing_field:
  assumes "user_lacks_field r"
  shows "\<exists>err. get_immich_users_stat cfg r = Inl err"
proof (rule ccontr)
  assume "\<not> (\<exists>err. get_immich_users_stat cfg r = Inl err)"
  then obtain ms where ok: "get_immich_users_stat cfg r = Inr ms"
    by (cases "get_immich_users_stat cfg r") auto
  from assms obtain doc where r: "r = Json doc" by (cases r) (simp_all add: user_lacks_field_def)
  from assms r obtain us u where us: "subscript doc ''usageByUser'' = Inr (PList us)"
    and u: "u \<in> set us" "lacks_field u [''userName'', ''photos'', ''videos'', ''usage'']"
    by (auto simp: user_lacks_field_def split: sum.splits pyval.splits)
  from ok obtain st where "users_loop cfg (PList us) [0..<length us]
      \<lparr> photos_growth_total = 0, videos_growth_total = 0, usage_growth_total = 0, metrics = [] \<rparr> = Inr st"
    by (auto simp: get_immich_users_stat_def read_local_def r us py_len_def bind_res_def
             split: sum.splits)
  moreover from u(1) obtain x where "x < length us" "u = us ! x" by (auto simp: in_set_conv_nth)
  ultimately show False using users_loop_Inr [of cfg us "[0..<length us]" _ st x] u(2) by simp
qed

lemma cycle_all_or_nothing:
  assumes "version_loop (version_requests e) 0 [] = Some (version, tr)"
    and "(\<exists>err. version_metrics cfg version = Inl err) \<or>
         (\<exists>err. get_immich_storage cfg (storage_request e) = Inl err) \<or>
         (\<exists>err. get_immich_users_stat cfg (statistics_request e) = Inl err)"
  shows "\<exists>err. collect cfg e = Some (Inl err)"
  using assms
  by (auto simp: collect_def get_immich_metrics_def get_immich_server_version_number_def
      bind_res_def split: sum.splits)

text \<open>
  Claim C4, as the code has it. No transformer and no caller catches \<^verbatim>\<open>KeyError\<close>.
  Once the \<^verbatim>\<open>/version\<close> loop has returned a document: if that document, the storage
  response, the statistics response or an entry of \<^verbatim>\<open>usageByUser\<close> lacks an expected
  field, \<^verbatim>\<open>collect\<close> raises and yields no record; and whenever any of the three
  transformers raises, for whatever reason, \<^verbatim>\<open>collect\<close> raises and yields no record.
\<close>

theorem missing_field_aborts_cycle:
  assumes "version_loop (version_requests e) 0 [] = Some (version, tr)"
  shows "(lacks_field version [''major'', ''minor'', ''patch''] \<or>
          absent_in (storage_request e)
            [''diskAvailableRaw'', ''diskSizeRaw'', ''diskUseRaw'', ''diskUsagePercentage''] \<or>
          absent_in (statistics_request e) [''usageByUser''] \<or>
          user_lacks_field (statistics_request e)
            \<longrightarrow> (\<exists>err. collect cfg e = Some (Inl err))) \<and>
         ((\<exists>err. version_metrics cfg version = Inl err) \<or>
          (\<exists>err. get_immich_storage cfg (storage_request e) = Inl err) \<or>
          (\<exists>err. get_immich_users_stat cfg (statistics_request e) = Inl err)
            \<longrightarrow> (\<exists>err. collect cfg e = Some (Inl err)))"
proof (intro conjI impI)
  assume "lacks_field version [''major'', ''minor'', ''patch''] \<or>
          absent_in (storage_request e)
            [''diskAvailableRaw'', ''diskSizeRaw'', ''diskUseRaw'', ''diskUsagePercentage''] \<or>
          absent_in (statistics_request e) [''usageByUser''] \<or>
          user_lacks_field (statistics_request e)"
  then have "(\<exists>err. version_metrics cfg version = Inl err) \<or>
         (\<exists>err. get_immich_storage cfg (storage_request e) = Inl err) \<or>
         (\<exists>err. get_immich_users_stat cfg (statistics_request e) = Inl err)"
    using version_missing_field [of version cfg] storage_missing_field [of "storage_request e" cfg]
      statistics_missing_field [of "statistics_request e" cfg]
      users_missing_field [of "statistics_request e" cfg]
    by blast
  then show "\<exists>err. collect cfg e = Some (Inl err)" by (rule cycle_all_or_nothing [OF assms])
next
  assume "(\<exists>err. version_metrics cfg version = Inl err) \<or>
         (\<exists>err. get_immich_storage cfg (storage_request e) = Inl err) \<or>
         (\<exists>err. get_immich_users_stat cfg (statistics_request e) = Inl err)"
  then show "\<exists>err. collect cfg e = Some (Inl err)" by (rule cycle_all_or_nothing [OF assms])
qed

theorem missing_field_aborts_cycle_witness:
  "version_loop (version_requests no_photos) 0 [] = Some (version_1_2_3, [Request ''/version'']) \<and>
   user_lacks_field (statistics_request no_photos) \<and>
   (\<exists>err. collect cfg_immich no_photos = Some (Inl err))"
proof -
  have loop: "version_loop (version_requests no_photos) 0 [] = Some (version_1_2_3, [Request ''/version''])"
    by (simp add: no_photos_def version_loop_first)
  have lacks: "user_lacks_field (statistics_request no_photos)"
    by (simp add: no_photos_def user_lacks_field_def subscript_def lacks_field_def)
  from missing_field_aborts_cycle [OF loop, of cfg_immich] lacks loop show ?thesis by blast
qed

text \<open>
  Claim C4 as stated fails: with every endpoint answering and the statistics document
  lacking \<^verbatim>\<open>usageByUser\<close>, the cycle ends in \<^verbatim>\<open>KeyError\<close>; the version and storage
  records are not produced.
\<close>

theorem missing_field_counterexample:
  "collect cfg_immich no_usage = Some (Inl KeyError)"
proof -
  obtain ms where "get_immich_server_version_number cfg_immich (\<lambda>k. Json version_1_2_3) = Some (Inr ms)"
    using version_1_2_3_ok by blast
  moreover obtain ms2 where "get_immich_storage cfg_immich (Json storage_100_500) = Inr ms2"
    by (simp add: get_immich_storage_def read_local_def bind_res_def storage_100_500_def subscript_def)
  moreover have "get_immich_users_stat cfg_immich (Json (PDict [])) = Inl KeyError"
    by (simp add: get_immich_users_stat_def read_local_def bind_res_def subscript_def)
  ultimately show ?thesis
    by (simp add: collect_def get_immich_metrics_def no_usage_def bind_res_def)
qed

section \<open>Label keys are a function of the metric name\<close>

lemma well_labelled_version:
  "version_metrics cfg response = Inr ms \<Longrightarrow> list_all (well_labelled cfg) ms"
  unfolding version_metrics_def
  by (auto dest!: bind_res_Inr simp: well_labelled_def to_family_def expected_labelnames_def Let_def)

lemma well_labelled_storage:
  "get_immich_storage cfg r = Inr ms \<Longrightarrow> list_all (well_labelled cfg) ms"
  unfolding get_immich_storage_def Let_def
  by (auto dest!: bind_res_Inr simp: well_labelled_def to_family_def expected_labelnames_def)

lemma well_labelled_by_users:
  assumes "by_users cfg suffix u v = Inr m"
    and "suffix \<in> set [''_server_stats_photos_by_users'', ''_server_stats_videos_by_users'',
                        ''_server_stats_usage_by_users'']"
  shows "well_labelled cfg m"
proof -
  from assms(1) obtain firstName helpName where
    "m = \<lparr> metric_name = metrics_prefix cfg @ suffix, metric_value = v,
          metric_help = ''Number of photos by user '' @ helpName @ '' '',
          metric_labels = Some [(''firstName'', firstName)], metric_type = None \<rparr>"
    unfolding by_users_def by (auto dest!: bind_res_Inr)
  then show ?thesis using assms(2)
    by (auto simp: well_labelled_def to_family_def expected_labelnames_def)
qed

lemma well_labelled_users_body:
  assumes "users_body cfg u st = Inr st'" and "list_all (well_labelled cfg) (metrics st)"
  shows "list_all (well_labelled cfg) (metrics st')"
proof -
  from assms(1) obtain photos videos usage m1 m2 m3 where
    m1: "by_users cfg ''_server_stats_photos_by_users'' u photos = Inr m1"
    and m2: "by_users cfg ''_server_stats_videos_by_users'' u videos = Inr m2"
    and m3: "by_users cfg ''_server_stats_usage_by_users'' u usage = Inr m3"
    and st': "metrics st' = metrics st @ [m1, m2, m3]"
    unfolding users_body_def by (auto dest!: bind_res_Inr)
  have "well_labelled cfg m1" by (rule well_labelled_by_users [OF m1]) simp
  moreover have "well_labelled cfg m2" by (rule well_labelled_by_users [OF m2]) simp
  moreover have "well_labelled cfg m3" by (rule well_labelled_by_users [OF m3]) simp
  ultimately show ?thesis using assms(2) st' by simp
qed

lemma well_labelled_users_loop:
  "users_loop cfg user_data xs st = Inr st' \<Longrightarrow> list_all (well_labelled cfg) (metrics st) \<Longrightarrow>
   list_all (well_labelled cfg) (metrics st')"
proof (induction xs arbitrary: st)
  case Nil
  then show ?case by simp
next
  case (Cons x xs)
  from Cons.prems(1) obtain user st2 where s2: "users_body cfg user st = Inr st2"
    and rest: "users_loop cfg user_data xs st2 = Inr st'"
    by (auto dest!: bind_res_Inr)
  from Cons.IH [OF rest well_labelled_users_body [OF s2 Cons.prems(2)]] show ?case .
qed

lemma well_labelled_users_stat:
  assumes "get_immich_users_stat cfg r = Inr ms"
  shows "list_all (well_labelled cfg) ms"
proof -
  from assms obtain user_data user_count st where
    loop: "users_loop cfg user_data [0..<user_count]
       \<lparr> photos_growth_total = 0, videos_growth_total = 0, usage_growth_total = 0, metrics = [] \<rparr> = Inr st"
    and ms: "ms = metrics st @ aggregate_metrics cfg user_count (photos_growth_total st)
                   (videos_growth_total st) (usage_growth_total st)"
    unfolding get_immich_users_stat_def Let_def aggregate_metrics_def
    by (auto dest!: bind_res_Inr)
  have "list_all (well_labelled cfg) (metrics st)"
    by (rule well_labelled_users_loop [OF loop]) simp
  moreover have "list_all (well_labelled cfg) (aggregate_metrics cfg user_count (photos_growth_total st)
                   (videos_growth_total st) (usage_growth_total st))"
    by (simp add: aggregate_metrics_def well_labelled_def to_family_def expected_labelnames_def)
  ultimately show ?thesis by (simp add: ms)
qed

lemma well_labelled_system_stats: "list_all (well_labelled cfg) (get_system_stats cfg h)"
  by (cases "load_avg h"; cases "virtual_mem h")
     (simp add: get_system_stats_def labelled_def well_labelled_def to_family_def
        expected_labelnames_def)

lemma get_immich_metrics_Inr:
  assumes "get_immich_metrics cfg e = Some (Inr ms)"
  shows "\<exists>response tr m1 m2 m3. version_loop (version_requests e) 0 [] = Some (response, tr) \<and>
      version_metrics cfg response = Inr m1 \<and>
      get_immich_storage cfg (storage_request e) = Inr m2 \<and>
      get_immich_users_stat cfg (statistics_request e) = Inr m3 \<and>
      ms = m1 @ m2 @ m3 @ get_system_stats cfg (host e)"
  using assms
  by (auto simp: get_immich_metrics_def get_immich_server_version_number_def
           split: option.splits dest!: bind_res_Inr)

lemma well_labelled_cycle:
  assumes "get_immich_metrics cfg e = Some (Inr ms)"
  shows "list_all (well_labelled cfg) ms"
proof -
  from get_immich_metrics_Inr [OF assms] obtain response m1 m2 m3 where
    "version_metrics cfg response = Inr m1"
    "get_immich_storage cfg (storage_request e) = Inr m2"
    "get_immich_users_stat cfg (statistics_request e) = Inr m3"
    "ms = m1 @ m2 @ m3 @ get_system_stats cfg (host e)" by blast
  then show ?thesis
    using well_labelled_version well_labelled_storage well_labelled_users_stat
      well_labelled_system_stats [of cfg "host e"]
    by simp
qed

lemma well_labelled_same_name:
  assumes "well_labelled cfg m1" and "well_labelled cfg m2"
    and "metric_name m1 = metric_name m2"
  shows "family_labelnames (to_family m1) = family_labelnames (to_family m2)"
  using assms by (simp add: well_labelled_def)

text \<open>
  Claim C9. In every cycle that returns records, two emitted families with the same name
  have the same list of label names.
\<close>

theorem label_keys_consistent:
  assumes "collect cfg e = Some (Inr fams)"
    and "f1 \<in> set fams" and "f2 \<in> set fams"
    and "family_name f1 = family_name f2"
  shows "family_labelnames f1 = family_labelnames f2"
proof -
  from assms(1) obtain ms where ms: "get_immich_metrics cfg e = Some (Inr ms)"
    and fams: "fams = map to_family ms"
    by (auto simp: collect_def split: option.splits sum.splits)
  from assms(2,3) fams obtain m1 m2 where m1: "m1 \<in> set ms" "f1 = to_family m1"
    and m2: "m2 \<in> set ms" "f2 = to_family m2" by auto
  from well_labelled_cycle [OF ms] m1(1) m2(1)
  have w: "well_labelled cfg m1" "well_labelled cfg m2" by (simp_all add: list_all_iff)
  have "metric_name m1 = metric_name m2"
    using assms(4) m1(2) m2(2) by (simp add: to_family_def Let_def)
  from well_labelled_same_name [OF w this] show ?thesis by (simp add: m1(2) m2(2))
qed

theorem label_keys_consistent_witness:
  "\<exists>fams. collect cfg_immich all_up = Some (Inr fams) \<and>
      load_1m \<in> set fams \<and> load_15m \<in> set fams \<and>
      family_name load_1m = family_name load_15m \<and>
      family_labelvalues load_1m \<noteq> family_labelvalues load_15m \<and>
      family_labelnames load_1m = family_labelnames load_15m"
proof -
  obtain m1 where m1: "get_immich_server_version_number cfg_immich (\<lambda>k. Json version_1_2_3) = Some (Inr m1)"
    using version_1_2_3_ok by blast
  obtain m2 where m2: "get_immich_storage cfg_immich (Json storage_100_500) = Inr m2"
    by (simp add: get_immich_storage_def read_local_def bind_res_def storage_100_500_def subscript_def)
  obtain m3 where m3: "get_immich_users_stat cfg_immich (Json ann_and_bo) = Inr m3"
    using users_stat_valid [OF ann_and_bo_valid] by blast
  let ?fams = "map to_family (m1 @ m2 @ m3 @ get_system_stats cfg_immich idle_host)"
  have c: "collect cfg_immich all_up = Some (Inr ?fams)"
    by (simp add: collect_def get_immich_metrics_def all_up_def bind_res_def m1 m2 m3)
  have in1: "load_1m \<in> set ?fams" and in2: "load_15m \<in> set ?fams"
    by (simp_all add: get_system_stats_def idle_host_def load_1m_def load_15m_def)
  have same: "family_name load_1m = family_name load_15m"
    by (simp add: load_1m_def load_15m_def to_family_def labelled_def)
  have differ: "family_labelvalues load_1m \<noteq> family_labelvalues load_15m"
    by (simp add: load_1m_def load_15m_def to_family_def labelled_def)
  from label_keys_consistent [OF c in1 in2 same] c in1 in2 same differ
  show ?thesis by blast
qed

end
